theory Spec2Isabelle
  imports Main "HOL-Library.Sublist" "HOL-Library.Word"
begin

section \<open>ExtractHtmlContentPlugin: a shallow embedding\<close>

text \<open>
  The plugin of \<^verbatim>\<open>src/plugins/default/ExtractHtmlContentPlugin.ts\<close> scrapes a table of
  strings out of a DOM by CSS selectors and remembers, in a \<^verbatim>\<open>Set\<close>, the rows it has
  already returned. Each method is translated below into a HOL function of the same name.
  What the TypeScript throws is a value \<open>Inl e\<close> of a sum type, what it mutates
  (\<^verbatim>\<open>this.content\<close>, \<^verbatim>\<open>this.document\<close>) is passed in and returned.
\<close>

subsection \<open>JavaScript values and string primitives\<close>

text \<open>
  A JavaScript string is a sequence of UTF-16 code units, and every string operation of
  the plugin (\<^verbatim>\<open>startsWith\<close>, \<^verbatim>\<open>split\<close>, \<^verbatim>\<open>join\<close>, \<^verbatim>\<open>replace\<close>, \<^verbatim>\<open>trim\<close>,
  membership in a \<^verbatim>\<open>Set\<close>) works on code units. \<open>str\<close> turns an ASCII literal into
  its code units.
\<close>

type_synonym code_unit = "16 word"

type_synonym jsstring = "code_unit list"

definition str :: "string \<Rightarrow> jsstring" where
  "str s = map of_char s"

text \<open>
  A scraped cell is a string, or \<^verbatim>\<open>null\<close>/\<^verbatim>\<open>undefined\<close> when the DOM client has no
  value for the property: \<open>None\<close> stands for both, they behave alike in every operation
  used by the plugin (falsy, and printed as the empty string by \<^verbatim>\<open>Array.prototype.join\<close>).
\<close>

type_synonym jsval = "jsstring option"

text \<open>The exceptions the plugin's own code can raise.\<close>

datatype error = TypeError | RangeError

text \<open>JavaScript truthiness of a string-or-null value: only a non-empty string is truthy.\<close>

fun truthy :: "jsval \<Rightarrow> bool" where
  "truthy None = False"
| "truthy (Some s) = (s \<noteq> [])"

text \<open>
  \<^verbatim>\<open>String.prototype.trim\<close> strips, on both ends, the code units of WhiteSpace and
  LineTerminator: TAB, LF, VT, FF, CR, the byte order mark U+FEFF, the separators U+2028
  and U+2029, and the space separators (category Zs) U+0020, U+00A0, U+1680, U+2000 to
  U+200A, U+202F, U+205F and U+3000.
\<close>

definition isWhiteSpace :: "code_unit \<Rightarrow> bool" where
  "isWhiteSpace c =
     (c = 0x09 \<or> c = 0x0A \<or> c = 0x0B \<or> c = 0x0C \<or> c = 0x0D \<or> c = 0x20 \<or> c = 0xA0
      \<or> c = 0x1680 \<or> (0x2000 \<le> c \<and> c \<le> 0x200A) \<or> c = 0x2028 \<or> c = 0x2029
      \<or> c = 0x202F \<or> c = 0x205F \<or> c = 0x3000 \<or> c = 0xFEFF)"

definition trim :: "jsstring \<Rightarrow> jsstring" where
  "trim s = rev (dropWhile isWhiteSpace (rev (dropWhile isWhiteSpace s)))"

text \<open>\<^verbatim>\<open>s.startsWith(p)\<close>.\<close>

definition startsWith :: "jsstring \<Rightarrow> jsstring \<Rightarrow> bool" where
  "startsWith s p = prefix p s"

text \<open>
  \<^verbatim>\<open>s.split(c)\<close> for a one-character separator: never the empty array, the empty string
  splits into one empty fragment, adjacent separators give empty fragments.
\<close>

fun js_split :: "code_unit \<Rightarrow> jsstring \<Rightarrow> jsstring list" where
  "js_split c [] = [[]]"
| "js_split c (x # xs) =
     (if x = c then [] # js_split c xs
      else (case js_split c xs of [] \<Rightarrow> [[x]] | f # fs \<Rightarrow> (x # f) # fs))"

text \<open>\<^verbatim>\<open>xs.join(sep)\<close> on an array of strings.\<close>

fun str_join :: "jsstring \<Rightarrow> jsstring list \<Rightarrow> jsstring" where
  "str_join sep [] = []"
| "str_join sep [x] = x"
| "str_join sep (x # y # ys) = x @ sep @ str_join sep (y # ys)"

text \<open>
  \<^verbatim>\<open>row.join(',')\<close> on a row of cells: \<^verbatim>\<open>null\<close> and \<^verbatim>\<open>undefined\<close> cells are
  printed as the empty string.
\<close>

definition cell_string :: "jsval \<Rightarrow> jsstring" where
  "cell_string v = (case v of None \<Rightarrow> [] | Some s \<Rightarrow> s)"

definition Array_join :: "jsval list \<Rightarrow> jsstring" where
  "Array_join row = str_join [0x2C] (map cell_string row)"

text \<open>
  \<^verbatim>\<open>s.replace(pat, rep)\<close> with a string pattern: the first occurrence of \<open>pat\<close> only.
  (The plugin's replacement is the empty string, so no \<^verbatim>\<open>$\<close> pattern is involved.)
\<close>

fun js_replace :: "jsstring \<Rightarrow> jsstring \<Rightarrow> jsstring \<Rightarrow> jsstring" where
  "js_replace pat rep [] = (if pat = [] then rep else [])"
| "js_replace pat rep (c # cs) =
     (if prefix pat (c # cs) then rep @ drop (length pat) (c # cs)
      else c # js_replace pat rep cs)"

text \<open>\<^verbatim>\<open>xs[i]\<close> on an array of cells: \<^verbatim>\<open>undefined\<close> out of range.\<close>

definition js_nth :: "jsval list \<Rightarrow> nat \<Rightarrow> jsval" where
  "js_nth xs i = (if i < length xs then xs ! i else None)"

text \<open>
  \<^verbatim>\<open>Math.max(...xs)\<close> on array lengths; \<open>None\<close> is the \<^verbatim>\<open>-Infinity\<close> it returns for
  no argument.
\<close>

fun Math_max :: "nat list \<Rightarrow> nat option" where
  "Math_max [] = None"
| "Math_max (x # xs) = Some (fold max xs x)"

text \<open>The regular expression \<^verbatim>\<open>/html/i\<close>: some substring is \<^verbatim>\<open>html\<close> up to the case of
  the ASCII letters (without the \<^verbatim>\<open>u\<close> flag no other character is folded onto them).\<close>

definition toLowerASCII :: "code_unit \<Rightarrow> code_unit" where
  "toLowerASCII c = (if 0x41 \<le> c \<and> c \<le> 0x5A then c + 0x20 else c)"

fun str_includes :: "jsstring \<Rightarrow> jsstring \<Rightarrow> bool" where
  "str_includes [] pat = (pat = [])"
| "str_includes (c # cs) pat = (prefix pat (c # cs) \<or> str_includes cs pat)"

definition html_regexp_test :: "jsstring \<Rightarrow> bool" where
  "html_regexp_test s = str_includes (map toLowerASCII s) (str ''html'')"

subsection \<open>The DOM client interface\<close>

text \<open>
  \<^verbatim>\<open>IDomNode\<close> is declared in \<^verbatim>\<open>domclient/DomClient\<close>; the plugin calls two of its
  methods, \<^verbatim>\<open>querySelectorAll(selector)\<close> (an array of nodes) and
  \<^verbatim>\<open>getAttribute(name)\<close> (a string, or nothing). A node is the pair of these two
  methods, so every DOM implementation is a value of this type.
\<close>

datatype IDomNode =
  IDomNode (querySelectorAll: "jsstring \<Rightarrow> IDomNode list")
    (getAttribute: "jsstring \<Rightarrow> jsval")

subsection \<open>Options, resources and the plugin's state\<close>

text \<open>
  One element of \<^verbatim>\<open>opts.selectorPairs\<close>. Only \<^verbatim>\<open>contentSelector\<close> is required by
  the schema; \<^verbatim>\<open>contentProperty\<close> is the property name handed to \<^verbatim>\<open>getAttribute\<close>
  (the schema's default is \<^verbatim>\<open>innerText\<close>).
\<close>

record selectorPair =
  label :: "jsstring option"
  contentSelector :: jsstring
  contentProperty :: jsstring

record opts =
  domRead :: "bool option"
  selectorPairs :: "selectorPair list option"

text \<open>Of a \<^verbatim>\<open>Resource\<close> the plugin reads \<^verbatim>\<open>contentType\<close> only.\<close>

record resource =
  contentType :: "jsstring option"

text \<open>
  The fields of a plugin instance: its options, the set \<^verbatim>\<open>content\<close> of keys already
  scraped, and \<^verbatim>\<open>document\<close>, unset until \<^verbatim>\<open>apply\<close> runs.
\<close>

record plugin =
  plugin_opts :: opts
  content :: "jsstring set"
  document :: "IDomNode option"

definition new_plugin :: "opts \<Rightarrow> plugin" where
  "new_plugin os = \<lparr>plugin_opts = os, content = {}, document = None\<rparr>"

subsection \<open>test\<close>

text \<open>
  \<^verbatim>\<open>test(project, resource)\<close>. An absent resource is \<open>None\<close>. A resource without a
  content type is tested as the string \<^verbatim>\<open>undefined\<close>, as \<^verbatim>\<open>RegExp.prototype.test\<close>
  does.
\<close>

definition test :: "plugin \<Rightarrow> 'project \<Rightarrow> resource option \<Rightarrow> bool" where
  "test p project res =
     (case res of
        None \<Rightarrow> False
      | Some r \<Rightarrow>
          (let selectorsPresent =
                 (case selectorPairs (plugin_opts p) of None \<Rightarrow> False | Some ps \<Rightarrow> length ps > 0)
           in if \<not> selectorsPresent then False
              else html_regexp_test (case contentType r of None \<Rightarrow> str ''undefined'' | Some t \<Rightarrow> t)))"

subsection \<open>getSelectorBase\<close>

text \<open>
  The outer loop over the fragments of the first selector, at index \<open>i\<close> with the base
  found so far; the inner loop over \<open>j\<close> is the \<open>list_all\<close>.
\<close>

function getSelectorBase_loop ::
  "jsstring list \<Rightarrow> jsstring list \<Rightarrow> nat \<Rightarrow> jsstring option \<Rightarrow> jsstring option" where
  "getSelectorBase_loop selectors cssFragments i selectorBase =
     (if i < length cssFragments then
        (let checkBase = str_join [0x20] (take (i + 1) cssFragments)
         in if list_all (\<lambda>s. startsWith s checkBase) selectors
            then getSelectorBase_loop selectors cssFragments (i + 1) (Some checkBase)
            else selectorBase)
      else selectorBase)"
  by pat_completeness auto
termination
  by (relation "measure (\<lambda>(selectors, cssFragments, i, selectorBase). length cssFragments - i)")
    auto

declare getSelectorBase_loop.simps [simp del]

text \<open>
  \<^verbatim>\<open>getSelectorBase(selectorPairs)\<close>; \<^verbatim>\<open>selectors[0].split\<close> is a TypeError on the
  empty array. \<open>None\<close> is the \<^verbatim>\<open>null\<close> result.
\<close>

definition getSelectorBase :: "selectorPair list \<Rightarrow> error + jsstring option" where
  "getSelectorBase pairs =
     (let selectors = map contentSelector pairs
      in case selectors of
           [] \<Rightarrow> Inl TypeError
         | s0 # _ \<Rightarrow> Inr (getSelectorBase_loop selectors (js_split 0x20 s0) 0 None))"

subsection \<open>getContentKeys\<close>

definition getContentKeys :: "selectorPair list \<Rightarrow> jsstring list" where
  "getContentKeys pairs =
     map (\<lambda>sp. if truthy (label sp) then the (label sp) else contentSelector sp) pairs"

subsection \<open>diffAndMerge\<close>

text \<open>
  The filter callback reads and extends \<^verbatim>\<open>this.content\<close> row by row; the set is passed
  along and returned with the rows kept.
\<close>

fun diffAndMerge :: "jsstring set \<Rightarrow> jsval list list \<Rightarrow> jsval list list \<times> jsstring set" where
  "diffAndMerge seen [] = ([], seen)"
| "diffAndMerge seen (contentRow # rest) =
     (let joinedContent = Array_join contentRow
      in if joinedContent \<notin> seen
         then (case diffAndMerge (insert joinedContent seen) rest of
                 (kept, seen') \<Rightarrow> (contentRow # kept, seen'))
         else diffAndMerge seen rest)"

subsection \<open>transformToContentRows\<close>

text \<open>The body of the padding loop for one column.\<close>

definition pad_column :: "nat \<Rightarrow> jsval list \<Rightarrow> jsval list" where
  "pad_column maxLength selectorContent =
     (if length selectorContent < maxLength then
        (let lastVal = (if length selectorContent > 0 then last selectorContent else Some [])
         in selectorContent @ replicate (maxLength - length selectorContent) lastVal)
      else selectorContent)"

text \<open>
  \<^verbatim>\<open>transformToContentRows(contentBySelector)\<close>. With no column at all
  \<^verbatim>\<open>Array(-Infinity)\<close> is a RangeError.
\<close>

definition transformToContentRows :: "jsval list list \<Rightarrow> error + jsval list list" where
  "transformToContentRows contentBySelector =
     (case Math_max (map length contentBySelector) of
        None \<Rightarrow> Inl RangeError
      | Some maxLength \<Rightarrow>
          (let padded = map (pad_column maxLength) contentBySelector
           in Inr (map (\<lambda>idx. map (\<lambda>col. js_nth col idx) padded) [0..<maxLength])))"

subsection \<open>extractContent\<close>

text \<open>The value read from one element: \<^verbatim>\<open>attr ? attr.trim() : attr\<close>.\<close>

definition read_value :: "jsstring \<Rightarrow> IDomNode \<Rightarrow> jsval" where
  "read_value prop elm =
     (let attr = getAttribute elm prop in if truthy attr then map_option trim attr else attr)"

text \<open>Lines 83 to 89: the base under which the selectors are queried, if any.\<close>

definition extractContent_selectorBase ::
  "IDomNode \<Rightarrow> selectorPair list \<Rightarrow> error + jsstring option" where
  "extractContent_selectorBase doc pairs =
     (if length pairs > 1 then
        (case getSelectorBase pairs of
           Inl e \<Rightarrow> Inl e
         | Inr potentialSelectorBase \<Rightarrow>
             (if truthy potentialSelectorBase
                 \<and> length (querySelectorAll doc (the potentialSelectorBase)) > 0
              then Inr potentialSelectorBase else Inr None))
      else Inr None)"

text \<open>
  Scoped mode: the columns scraped under one base element (the loop over
  \<^verbatim>\<open>suffixSelectors\<close>), and the callback of \<^verbatim>\<open>reduce\<close>.
\<close>

definition scoped_contentBySelector ::
  "selectorPair list \<Rightarrow> jsstring list \<Rightarrow> IDomNode \<Rightarrow> jsval list list" where
  "scoped_contentBySelector pairs suffixSelectors baseElm =
     map (\<lambda>(suffixSelector, sp).
            filter truthy
              (map (read_value (contentProperty sp)) (querySelectorAll baseElm suffixSelector)))
         (zip suffixSelectors pairs)"

definition scoped_reducer ::
  "selectorPair list \<Rightarrow> jsstring list \<Rightarrow> jsval list list \<Rightarrow> IDomNode
     \<Rightarrow> error + jsval list list" where
  "scoped_reducer pairs suffixSelectors rows baseElm =
     (let contentBySelector = scoped_contentBySelector pairs suffixSelectors baseElm
      in case find (\<lambda>colEntry. length colEntry > 0) contentBySelector of
           None \<Rightarrow> Inr rows
         | Some validRowResult \<Rightarrow>
             (case transformToContentRows contentBySelector of
                Inl e \<Rightarrow> Inl e
              | Inr newRows \<Rightarrow> Inr (rows @ newRows)))"

text \<open>\<^verbatim>\<open>Array.prototype.reduce\<close> with a callback that may throw.\<close>

fun reduce :: "('a \<Rightarrow> 'b \<Rightarrow> error + 'a) \<Rightarrow> 'a \<Rightarrow> 'b list \<Rightarrow> error + 'a" where
  "reduce f acc [] = Inr acc"
| "reduce f acc (x # xs) = (case f acc x of Inl e \<Rightarrow> Inl e | Inr acc' \<Rightarrow> reduce f acc' xs)"

definition extractContent_scoped ::
  "IDomNode \<Rightarrow> selectorPair list \<Rightarrow> jsstring \<Rightarrow> error + jsval list list" where
  "extractContent_scoped doc pairs selectorBase =
     (let suffixSelectors = map (\<lambda>sp. trim (js_replace selectorBase [] (contentSelector sp))) pairs
      in reduce (scoped_reducer pairs suffixSelectors) [] (querySelectorAll doc selectorBase))"

text \<open>Global mode: one column per selector pair, read from the whole document.\<close>

definition global_contentBySelector :: "IDomNode \<Rightarrow> selectorPair list \<Rightarrow> jsval list list" where
  "global_contentBySelector doc pairs =
     map (\<lambda>sp. map (read_value (contentProperty sp)) (querySelectorAll doc (contentSelector sp)))
         pairs"

definition extractContent_global ::
  "IDomNode \<Rightarrow> selectorPair list \<Rightarrow> error + jsval list list" where
  "extractContent_global doc pairs = transformToContentRows (global_contentBySelector doc pairs)"

text \<open>
  \<^verbatim>\<open>extractContent()\<close>. Reading \<^verbatim>\<open>.length\<close> of absent selector pairs, or querying an
  unset document, is a TypeError; with no selector pair no query is made and the
  RangeError of \<^verbatim>\<open>transformToContentRows\<close> is reached.
\<close>

definition extractContent :: "plugin \<Rightarrow> error + jsval list list" where
  "extractContent p =
     (case selectorPairs (plugin_opts p) of
        None \<Rightarrow> Inl TypeError
      | Some pairs \<Rightarrow>
          (case document p of
             None \<Rightarrow> (if pairs = [] then Inl RangeError else Inl TypeError)
           | Some doc \<Rightarrow>
               (case extractContent_selectorBase doc pairs of
                  Inl e \<Rightarrow> Inl e
                | Inr selectorBase \<Rightarrow>
                    (if truthy selectorBase
                     then extractContent_scoped doc pairs (the selectorBase)
                     else extractContent_global doc pairs))))"

subsection \<open>apply\<close>

text \<open>
  \<^verbatim>\<open>apply(project, resource, DomClient)\<close>, from the DOM client it builds: the document is
  stored, the content extracted, and the rows not seen before are returned with the plugin's
  new state.
\<close>

definition apply_plugin :: "plugin \<Rightarrow> IDomNode \<Rightarrow> error + (jsval list list \<times> plugin)" where
  "apply_plugin p doc =
     (let p1 = p\<lparr>document := Some doc\<rparr>
      in case extractContent p1 of
           Inl e \<Rightarrow> Inl e
         | Inr currentContent \<Rightarrow>
             (case diffAndMerge (content p1) currentContent of
                (rows, seen') \<Rightarrow> Inr (rows, p1\<lparr>content := seen'\<rparr>)))"

subsection \<open>Concrete documents and plugins\<close>

text \<open>
  Small inputs on which the theorems below are instantiated: an element with an
  \<^verbatim>\<open>innerText\<close> and no descendants, a selector pair reading \<^verbatim>\<open>innerText\<close>, and a
  document whose \<^verbatim>\<open>li\<close> elements carry the given texts.
\<close>

definition text_node :: "jsval \<Rightarrow> IDomNode" where
  "text_node v = IDomNode (\<lambda>s. []) (\<lambda>prop. if prop = str ''innerText'' then v else None)"

definition text_pair :: "jsstring \<Rightarrow> selectorPair" where
  "text_pair s = \<lparr>label = None, contentSelector = s, contentProperty = str ''innerText''\<rparr>"

definition list_doc :: "jsstring list \<Rightarrow> IDomNode" where
  "list_doc vs =
     IDomNode (\<lambda>s. if s = str ''li'' then map (\<lambda>v. text_node (Some v)) vs else []) (\<lambda>prop. None)"

definition li_plugin :: plugin where
  "li_plugin = new_plugin \<lparr>domRead = Some True, selectorPairs = Some [text_pair (str ''li'')]\<rparr>"

definition li_plugin_after :: plugin where
  "li_plugin_after =
     li_plugin\<lparr>document := Some (list_doc [str ''x'', str ''y'']), content := {str ''x'', str ''y''}\<rparr>"

definition item_pairs :: "selectorPair list" where
  "item_pairs = [text_pair (str ''.item .title''), text_pair (str ''.item .price'')]"


text \<open>
  A repeating block with \<^verbatim>\<open>.title\<close> and \<^verbatim>\<open>.price\<close> children of the given texts, and a
  document made of such blocks, each matched by \<^verbatim>\<open>.item\<close>.
\<close>

definition item_node :: "jsstring list \<Rightarrow> jsstring list \<Rightarrow> IDomNode" where
  "item_node titles prices =
     IDomNode (\<lambda>s. if s = str ''.title'' then map (\<lambda>v. text_node (Some v)) titles
                   else if s = str ''.price'' then map (\<lambda>v. text_node (Some v)) prices
                   else [])
              (\<lambda>prop. None)"

definition item_doc :: "IDomNode list \<Rightarrow> IDomNode" where
  "item_doc items = IDomNode (\<lambda>s. if s = str ''.item'' then items else []) (\<lambda>prop. None)"

section \<open>Properties\<close>

subsection \<open>The filter of rows already scraped\<close>

lemma fst_diffAndMerge_Cons:
  "fst (diffAndMerge seen (r # rows)) =
     (if Array_join r \<notin> seen then r # fst (diffAndMerge (insert (Array_join r) seen) rows)
      else fst (diffAndMerge seen rows))"
  by (simp add: Let_def split: prod.splits)

lemma snd_diffAndMerge_Cons:
  "snd (diffAndMerge seen (r # rows)) =
     (if Array_join r \<notin> seen then snd (diffAndMerge (insert (Array_join r) seen) rows)
      else snd (diffAndMerge seen rows))"
  by (simp add: Let_def split: prod.splits)

lemma diffAndMerge_seen:
  "snd (diffAndMerge seen rows) = seen \<union> set (map Array_join rows)"
  by (induction rows arbitrary: seen)
    (auto simp: snd_diffAndMerge_Cons simp del: diffAndMerge.simps(2))

lemma diffAndMerge_kept_keys:
  "set (map Array_join (fst (diffAndMerge seen rows))) = set (map Array_join rows) - seen"
  by (induction rows arbitrary: seen)
    (auto simp: fst_diffAndMerge_Cons simp del: diffAndMerge.simps(2))

lemma diffAndMerge_subseq: "subseq (fst (diffAndMerge seen rows)) rows"
  by (induction rows arbitrary: seen)
    (auto simp: fst_diffAndMerge_Cons simp del: diffAndMerge.simps(2))

lemma diffAndMerge_distinct: "distinct (map Array_join (fst (diffAndMerge seen rows)))"
proof (induction rows arbitrary: seen)
  case Nil
  then show ?case by simp
next
  case (Cons r rows)
  have "Array_join r
          \<notin> set (map Array_join (fst (diffAndMerge (insert (Array_join r) seen) rows)))"
    unfolding diffAndMerge_kept_keys by simp
  then show ?case using Cons.IH
    by (simp add: fst_diffAndMerge_Cons del: diffAndMerge.simps(2))
qed

lemma diffAndMerge_all_seen:
  "set (map Array_join rows) \<subseteq> seen \<Longrightarrow> diffAndMerge seen rows = ([], seen)"
  by (induction rows) auto

lemma diffAndMerge_append:
  "diffAndMerge seen (xs @ ys) =
     (fst (diffAndMerge seen xs) @ fst (diffAndMerge (snd (diffAndMerge seen xs)) ys),
      snd (diffAndMerge (snd (diffAndMerge seen xs)) ys))"
  by (induction xs arbitrary: seen) (auto simp: Let_def split: prod.splits)

lemma diffAndMerge_one_new:
  assumes "set (map Array_join (xs @ ys)) \<subseteq> seen" and "Array_join r \<notin> seen"
  shows "diffAndMerge seen (xs @ r # ys) = ([r], insert (Array_join r) seen)"
proof -
  have 1: "diffAndMerge seen xs = ([], seen)"
    using assms(1) by (intro diffAndMerge_all_seen) auto
  have 2: "diffAndMerge (insert (Array_join r) seen) ys = ([], insert (Array_join r) seen)"
    using assms(1) by (intro diffAndMerge_all_seen) auto
  show ?thesis using 1 2 assms(2) by (simp add: diffAndMerge_append)
qed

lemma diffAndMerge_all_new:
  "distinct (map Array_join rows) \<Longrightarrow> set (map Array_join rows) \<inter> seen = {}
     \<Longrightarrow> fst (diffAndMerge seen rows) = rows"
proof (induction rows arbitrary: seen)
  case Nil
  then show ?case by simp
next
  case (Cons r rows)
  from Cons.prems have "set (map Array_join rows) \<inter> insert (Array_join r) seen = {}"
    by auto
  with Cons.prems Cons.IH [of "insert (Array_join r) seen"] show ?case
    by (auto simp: fst_diffAndMerge_Cons simp del: diffAndMerge.simps(2))
qed

text \<open>
  Claim C10. In one pass the rows returned by \<^verbatim>\<open>diffAndMerge\<close> are a subsequence of the
  rows computed (their order is kept), their comma-joined keys are pairwise distinct, so
  a key that occurs twice in the pass is returned once at most, and the set of seen keys
  after the pass is the set before it together with exactly the keys of the rows
  returned; no key is ever removed.
\<close>

theorem diffAndMerge_pass:
  "subseq (fst (diffAndMerge seen rows)) rows
   \<and> distinct (map Array_join (fst (diffAndMerge seen rows)))
   \<and> snd (diffAndMerge seen rows) = seen \<union> set (map Array_join (fst (diffAndMerge seen rows)))
   \<and> seen \<subseteq> snd (diffAndMerge seen rows)"
proof -
  have "seen \<union> set (map Array_join rows)
          = seen \<union> set (map Array_join (fst (diffAndMerge seen rows)))"
    unfolding diffAndMerge_kept_keys by blast
  then show ?thesis
    using diffAndMerge_subseq [of seen rows] diffAndMerge_distinct [of seen rows]
    by (simp add: diffAndMerge_seen)
qed

subsection \<open>Passes of one plugin instance\<close>

lemma extractContent_cong:
  "plugin_opts p = plugin_opts q \<Longrightarrow> document p = document q
     \<Longrightarrow> extractContent p = extractContent q"
  by (simp add: extractContent_def split: option.splits)

lemma apply_plugin_eq:
  "apply_plugin p doc =
     (case extractContent (p\<lparr>document := Some doc\<rparr>) of
        Inl e \<Rightarrow> Inl e
      | Inr cur \<Rightarrow>
          Inr (fst (diffAndMerge (content p) cur),
               p\<lparr>document := Some doc, content := snd (diffAndMerge (content p) cur)\<rparr>))"
  by (simp add: apply_plugin_def Let_def split: sum.splits prod.splits)

lemma content_li_plugin: "content li_plugin = {}"
  by (simp add: li_plugin_def new_plugin_def)

text \<open>
  Claim C1, as stated, fails in its first part: the first pass does not always return the
  rows it computed. A fresh plugin over two \<^verbatim>\<open>li\<close> elements with the same text computes
  two rows of the same key and returns one of them.
\<close>

theorem first_pass_duplicate_counterexample:
  "content li_plugin = {}
   \<and> extractContent (li_plugin\<lparr>document := Some (list_doc [str ''x'', str ''x''])\<rparr>)
       = Inr [[Some (str ''x'')], [Some (str ''x'')]]
   \<and> map_sum id fst (apply_plugin li_plugin (list_doc [str ''x'', str ''x'']))
       = Inr [[Some (str ''x'')]]"
proof -
  have "extractContent (li_plugin\<lparr>document := Some (list_doc [str ''x'', str ''x''])\<rparr>)
       = Inr [[Some (str ''x'')], [Some (str ''x'')]]"
    by code_simp
  moreover have "map_sum id fst (apply_plugin li_plugin (list_doc [str ''x'', str ''x'']))
       = Inr [[Some (str ''x'')]]"
    by code_simp
  ultimately show ?thesis
    using content_li_plugin by (intro conjI)
qed

text \<open>
  Claim C1, amended. Let a pass of a plugin instance over a document succeed. A second
  pass of the instance over the same document returns no row and leaves the instance as
  it is. A further pass over a document whose computed rows are those of the first
  document with one row inserted, the key of which has not been seen, returns that row
  alone and records its key. The first pass returns a subsequence of the computed rows
  with one row for each key not seen before; when no computed key was seen before, it
  returns the computed rows themselves exactly when their keys are pairwise distinct.
\<close>

theorem dedup_across_passes:
  assumes pass1: "apply_plugin p doc = Inr (rows1, p1)"
  shows "apply_plugin p1 doc = Inr ([], p1)
       \<and> (\<forall>doc' xs r ys.
            extractContent (p\<lparr>document := Some doc\<rparr>) = Inr (xs @ ys)
            \<and> extractContent (p\<lparr>document := Some doc'\<rparr>) = Inr (xs @ r # ys)
            \<and> Array_join r \<notin> content p1
            \<longrightarrow> apply_plugin p1 doc'
                  = Inr ([r], p1\<lparr>document := Some doc',
                                  content := insert (Array_join r) (content p1)\<rparr>))
       \<and> (\<forall>cur. extractContent (p\<lparr>document := Some doc\<rparr>) = Inr cur \<longrightarrow>
              subseq rows1 cur \<and> distinct (map Array_join rows1)
              \<and> set (map Array_join rows1) = set (map Array_join cur) - content p
              \<and> (set (map Array_join cur) \<inter> content p = {}
                   \<longrightarrow> (rows1 = cur) = distinct (map Array_join cur)))"
proof -
  from pass1 obtain cur where
    cur: "extractContent (p\<lparr>document := Some doc\<rparr>) = Inr cur"
    and rows1: "rows1 = fst (diffAndMerge (content p) cur)"
    and p1: "p1 = p\<lparr>document := Some doc, content := snd (diffAndMerge (content p) cur)\<rparr>"
    by (auto simp: apply_plugin_eq split: sum.splits)
  have seen1: "content p1 = content p \<union> set (map Array_join cur)"
    by (simp add: p1 diffAndMerge_seen)
  have opts1: "plugin_opts p1 = plugin_opts p"
    by (simp add: p1)
  have ext: "extractContent (p1\<lparr>document := Some d\<rparr>) = extractContent (p\<lparr>document := Some d\<rparr>)"
    for d
    by (rule extractContent_cong) (simp_all add: opts1)
  have same: "p1\<lparr>document := Some doc, content := content p1\<rparr> = p1"
    by (simp add: p1)
  have "diffAndMerge (content p1) cur = ([], content p1)"
    by (rule diffAndMerge_all_seen) (simp add: seen1)
  then have second: "apply_plugin p1 doc = Inr ([], p1)"
    by (simp add: apply_plugin_eq ext cur same)
  have third: "apply_plugin p1 doc'
                 = Inr ([r], p1\<lparr>document := Some doc',
                                 content := insert (Array_join r) (content p1)\<rparr>)"
    if a: "extractContent (p\<lparr>document := Some doc\<rparr>) = Inr (xs @ ys)"
      and b: "extractContent (p\<lparr>document := Some doc'\<rparr>) = Inr (xs @ r # ys)"
      and c: "Array_join r \<notin> content p1" for doc' xs r ys
  proof -
    from a cur have "cur = xs @ ys" by simp
    then have "set (map Array_join (xs @ ys)) \<subseteq> content p1"
      by (simp add: seen1)
    then have "diffAndMerge (content p1) (xs @ r # ys)
                 = ([r], insert (Array_join r) (content p1))"
      using c by (rule diffAndMerge_one_new)
    then show ?thesis
      by (simp add: apply_plugin_eq ext b)
  qed
  have first: "subseq rows1 c \<and> distinct (map Array_join rows1)
      \<and> set (map Array_join rows1) = set (map Array_join c) - content p
      \<and> (set (map Array_join c) \<inter> content p = {}
           \<longrightarrow> (rows1 = c) = distinct (map Array_join c))"
    if "extractContent (p\<lparr>document := Some doc\<rparr>) = Inr c" for c
  proof -
    from that cur have c: "c = cur" by simp
    have "rows1 = cur" if "set (map Array_join cur) \<inter> content p = {}"
      and "distinct (map Array_join cur)"
      using that rows1 by (simp add: diffAndMerge_all_new)
    moreover have "distinct (map Array_join cur)" if "rows1 = cur"
      using diffAndMerge_distinct [of "content p" cur] that rows1 by simp
    ultimately show ?thesis
      unfolding c rows1
      using diffAndMerge_subseq [of "content p" cur] diffAndMerge_distinct [of "content p" cur]
        diffAndMerge_kept_keys [of "content p" cur]
      by blast
  qed
  from second third first show ?thesis by blast
qed

lemma trim_xyz:
  "trim (str ''x'') = str ''x''" "trim (str ''y'') = str ''y''" "trim (str ''z'') = str ''z''"
  by code_simp+

lemma Array_join_single: "Array_join [Some s] = s"
  by (simp add: Array_join_def cell_string_def)

lemma li_rows_xy:
  "extractContent (li_plugin\<lparr>document := Some (list_doc [str ''x'', str ''y''])\<rparr>)
     = Inr [[Some (str ''x'')], [Some (str ''y'')]]"
  by code_simp

lemma li_rows_xzy:
  "extractContent (li_plugin\<lparr>document := Some (list_doc [str ''x'', str ''z'', str ''y''])\<rparr>)
     = Inr [[Some (str ''x'')], [Some (str ''z'')], [Some (str ''y'')]]"
  by code_simp

lemma diffAndMerge_xy:
  "diffAndMerge {} [[Some (str ''x'')], [Some (str ''y'')]]
     = ([[Some (str ''x'')], [Some (str ''y'')]], {str ''x'', str ''y''})"
  by (simp add: Array_join_single Let_def insert_commute str_def)

lemma content_li_plugin_after: "content li_plugin_after = {str ''x'', str ''y''}"
  by (simp add: li_plugin_after_def)

lemma li_pass1:
  "apply_plugin li_plugin (list_doc [str ''x'', str ''y''])
     = Inr ([[Some (str ''x'')], [Some (str ''y'')]], li_plugin_after)"
  apply (subst apply_plugin_eq)
  apply (subst li_rows_xy)
  apply (subst content_li_plugin)+
  apply (simp only: sum.case)
  apply (simp only: diffAndMerge_xy fst_conv snd_conv li_plugin_after_def)
  done

theorem dedup_across_passes_witness:
  "apply_plugin li_plugin (list_doc [str ''x'', str ''y''])
     = Inr ([[Some (str ''x'')], [Some (str ''y'')]], li_plugin_after)
   \<and> apply_plugin li_plugin_after (list_doc [str ''x'', str ''y'']) = Inr ([], li_plugin_after)
   \<and> apply_plugin li_plugin_after (list_doc [str ''x'', str ''z'', str ''y''])
       = Inr ([[Some (str ''z'')]],
              li_plugin_after\<lparr>document := Some (list_doc [str ''x'', str ''z'', str ''y'']),
                               content := insert (str ''z'') (content li_plugin_after)\<rparr>)"
proof -
  note inst = dedup_across_passes [OF li_pass1]
  have new: "Array_join [Some (str ''z'')] \<notin> content li_plugin_after"
    by (simp add: Array_join_single content_li_plugin_after str_def)
  have a: "extractContent (li_plugin\<lparr>document := Some (list_doc [str ''x'', str ''y''])\<rparr>)
          = Inr ([[Some (str ''x'')]] @ [[Some (str ''y'')]])"
    by (simp only: li_rows_xy append.simps)
  have b: "extractContent (li_plugin\<lparr>document := Some (list_doc [str ''x'', str ''z'', str ''y''])\<rparr>)
          = Inr ([[Some (str ''x'')]] @ [Some (str ''z'')] # [[Some (str ''y'')]])"
    by (simp only: li_rows_xzy append.simps)
  from inst have
    "extractContent (li_plugin\<lparr>document := Some (list_doc [str ''x'', str ''y''])\<rparr>)
          = Inr ([[Some (str ''x'')]] @ [[Some (str ''y'')]])
     \<and> extractContent (li_plugin\<lparr>document := Some (list_doc [str ''x'', str ''z'', str ''y''])\<rparr>)
          = Inr ([[Some (str ''x'')]] @ [Some (str ''z'')] # [[Some (str ''y'')]])
     \<and> Array_join [Some (str ''z'')] \<notin> content li_plugin_after
     \<longrightarrow> apply_plugin li_plugin_after (list_doc [str ''x'', str ''z'', str ''y''])
          = Inr ([[Some (str ''z'')]],
              li_plugin_after\<lparr>document := Some (list_doc [str ''x'', str ''z'', str ''y'']),
                     content := insert (Array_join [Some (str ''z'')]) (content li_plugin_after)\<rparr>)"
    by blast
  with a b new have third:
    "apply_plugin li_plugin_after (list_doc [str ''x'', str ''z'', str ''y''])
          = Inr ([[Some (str ''z'')]],
              li_plugin_after\<lparr>document := Some (list_doc [str ''x'', str ''z'', str ''y'']),
                     content := insert (str ''z'') (content li_plugin_after)\<rparr>)"
    by (simp only: Array_join_single simp_thms)
  from inst have second:
    "apply_plugin li_plugin_after (list_doc [str ''x'', str ''y'']) = Inr ([], li_plugin_after)"
    by (rule conjunct1)
  from li_pass1 second third show ?thesis by (intro conjI)
qed

subsection \<open>The common base of the selectors\<close>


lemma getSelectorBase_loop_Some:
  "getSelectorBase_loop selectors cssFragments i selectorBase = Some b \<Longrightarrow>
     selectorBase = Some b
     \<or> (\<exists>k. i < k \<and> k \<le> length cssFragments \<and> b = str_join [0x20] (take k cssFragments)
            \<and> list_all (\<lambda>s. startsWith s b) selectors)"
proof (induction selectors cssFragments i selectorBase rule: getSelectorBase_loop.induct)
  case (1 selectors cssFragments i selectorBase)
  let ?cb = "str_join [0x20] (take (i + 1) cssFragments)"
  show ?case
  proof (cases "i < length cssFragments \<and> list_all (\<lambda>s. startsWith s ?cb) selectors")
    case True
    with "1.prems" have
      "getSelectorBase_loop selectors cssFragments (i + 1) (Some ?cb) = Some b"
      by (subst (asm) getSelectorBase_loop.simps) (simp add: Let_def)
    with "1.IH" [OF _ refl] True have
      "Some ?cb = Some b
       \<or> (\<exists>k. i + 1 < k \<and> k \<le> length cssFragments \<and> b = str_join [0x20] (take k cssFragments)
            \<and> list_all (\<lambda>s. startsWith s b) selectors)"
      by simp
    then show ?thesis
    proof
      assume "Some ?cb = Some b"
      with True have "i < i + 1 \<and> i + 1 \<le> length cssFragments
          \<and> b = str_join [0x20] (take (i + 1) cssFragments)
          \<and> list_all (\<lambda>s. startsWith s b) selectors"
        by auto
      then show ?thesis by blast
    next
      assume "\<exists>k. i + 1 < k \<and> k \<le> length cssFragments
          \<and> b = str_join [0x20] (take k cssFragments) \<and> list_all (\<lambda>s. startsWith s b) selectors"
      then obtain k where "i + 1 < k" "k \<le> length cssFragments"
        "b = str_join [0x20] (take k cssFragments)" "list_all (\<lambda>s. startsWith s b) selectors"
        by blast
      then have "i < k \<and> k \<le> length cssFragments
        \<and> b = str_join [0x20] (take k cssFragments) \<and> list_all (\<lambda>s. startsWith s b) selectors"
        by simp
      then show ?thesis by blast
    qed
  next
    case False
    with "1.prems" have "selectorBase = Some b"
      by (subst (asm) getSelectorBase_loop.simps) (auto simp: Let_def split: if_splits)
    then show ?thesis by simp
  qed
qed




lemma getSelectorBase_Some:
  assumes "getSelectorBase pairs = Inr (Some b)"
  shows "pairs \<noteq> []"
    and "\<exists>k. 0 < k \<and> k \<le> length (js_split 0x20 (contentSelector (hd pairs)))
            \<and> b = str_join [0x20] (take k (js_split 0x20 (contentSelector (hd pairs))))"
    and "list_all (\<lambda>sp. startsWith (contentSelector sp) b) pairs"
proof -
  from assms show ne: "pairs \<noteq> []"
    by (auto simp: getSelectorBase_def)
  then obtain sp0 rest where pairs: "pairs = sp0 # rest"
    by (cases pairs) auto
  let ?frags = "js_split 0x20 (contentSelector sp0)"
  from assms have "getSelectorBase_loop (map contentSelector pairs) ?frags 0 None = Some b"
    by (simp add: getSelectorBase_def pairs)
  from getSelectorBase_loop_Some [OF this] obtain k where
    k: "0 < k" "k \<le> length ?frags" "b = str_join [0x20] (take k ?frags)"
    and all: "list_all (\<lambda>s. startsWith s b) (map contentSelector pairs)"
    by auto
  from k show "\<exists>k. 0 < k \<and> k \<le> length (js_split 0x20 (contentSelector (hd pairs)))
            \<and> b = str_join [0x20] (take k (js_split 0x20 (contentSelector (hd pairs))))"
    unfolding pairs by auto
  from all show "list_all (\<lambda>sp. startsWith (contentSelector sp) b) pairs"
    by (simp add: list_all_iff)
qed


lemma extractContent_selectorBase_Some:
  "extractContent_selectorBase doc pairs = Inr (Some b) \<Longrightarrow>
     getSelectorBase pairs = Inr (Some b) \<and> 1 < length pairs \<and> b \<noteq> []
       \<and> querySelectorAll doc b \<noteq> []"
  by (auto simp: extractContent_selectorBase_def split: if_splits sum.splits option.splits)

lemma getSelectorBase_item_pairs: "getSelectorBase item_pairs = Inr (Some (str ''.item''))"
  by code_simp


lemma getSelectorBase_ab:
  "getSelectorBase [text_pair (str ''.a .x''), text_pair (str ''.b .x'')] = Inr None"
  by code_simp

text \<open>
  Claim C6. Whenever base inference returns a base, that base is a prefix, in the sense of
  \<^verbatim>\<open>startsWith\<close>, of the \<^verbatim>\<open>contentSelector\<close> of every selector pair: for
  \<^verbatim>\<open>getSelectorBase\<close> itself and for the base that \<^verbatim>\<open>extractContent\<close> settles on.
\<close>

theorem selectorBase_startsWith:
  "(getSelectorBase pairs = Inr (Some b)
      \<longrightarrow> (\<forall>sp \<in> set pairs. startsWith (contentSelector sp) b))
   \<and> (extractContent_selectorBase doc pairs = Inr (Some b)
      \<longrightarrow> (\<forall>sp \<in> set pairs. startsWith (contentSelector sp) b))"
  using getSelectorBase_Some(3) [of pairs b] extractContent_selectorBase_Some [of doc pairs b]
  by (auto simp: list_all_iff)

theorem selectorBase_startsWith_witness:
  "getSelectorBase item_pairs = Inr (Some (str ''.item''))
   \<and> extractContent_selectorBase (item_doc [item_node [str ''T1''] [str ''P1'']]) item_pairs
       = Inr (Some (str ''.item''))
   \<and> startsWith (str ''.item .title'') (str ''.item'') \<and> startsWith (str ''.item .price'') (str ''.item'')"
proof -
  have scoped: "extractContent_selectorBase (item_doc [item_node [str ''T1''] [str ''P1'']]) item_pairs
                  = Inr (Some (str ''.item''))"
    by code_simp
  from selectorBase_startsWith [of item_pairs "(str ''.item'')" "item_doc [item_node [str ''T1''] [str ''P1'']]"]
    getSelectorBase_item_pairs scoped
  show ?thesis
    by (simp add: item_pairs_def text_pair_def)
qed




text \<open>
  Called on a single selector pair, \<^verbatim>\<open>getSelectorBase\<close> itself returns the whole selector;
  it is the guard \<^verbatim>\<open>selectorPairs.length > 1\<close> of \<^verbatim>\<open>extractContent\<close> that leaves the base
  unset.
\<close>

lemma getSelectorBase_single_pair:
  "getSelectorBase [text_pair (str ''.item .title'')] = Inr (Some (str ''.item .title''))"
  by code_simp

text \<open>
  Claim C7. With exactly one selector pair no base is inferred, and the content is the
  alignment of the single column read from the whole document with the full selector.
\<close>

theorem single_pair_is_global:
  assumes "selectorPairs (plugin_opts p) = Some pairs" and "length pairs = 1"
    and "document p = Some doc"
  shows "extractContent_selectorBase doc pairs = Inr None
       \<and> extractContent p
           = transformToContentRows
               [map (read_value (contentProperty (hd pairs)))
                    (querySelectorAll doc (contentSelector (hd pairs)))]"
proof -
  from assms(2) obtain sp where pairs: "pairs = [sp]"
    by (cases pairs) auto
  have base: "extractContent_selectorBase doc pairs = Inr None"
    by (simp add: extractContent_selectorBase_def pairs)
  then show ?thesis
    using assms(1,3)
    by (simp add: extractContent_def extractContent_global_def global_contentBySelector_def pairs)
qed

theorem single_pair_is_global_witness:
  "selectorPairs (plugin_opts li_plugin_after) = Some [text_pair (str ''li'')]
   \<and> length [text_pair (str ''li'')] = 1
   \<and> document li_plugin_after = Some (list_doc [str ''x'', str ''y''])
   \<and> extractContent_selectorBase (list_doc [str ''x'', str ''y'']) [text_pair (str ''li'')] = Inr None
   \<and> extractContent li_plugin_after = transformToContentRows [[Some (str ''x''), Some (str ''y'')]]"
proof -
  have 1: "selectorPairs (plugin_opts li_plugin_after) = Some [text_pair (str ''li'')]"
    by (simp add: li_plugin_after_def li_plugin_def new_plugin_def)
  have 2: "length [text_pair (str ''li'')] = 1"
    by simp
  have 3: "document li_plugin_after = Some (list_doc [str ''x'', str ''y''])"
    by (simp add: li_plugin_after_def)
  have "map (read_value (contentProperty (hd [text_pair (str ''li'')])))
          (querySelectorAll (list_doc [str ''x'', str ''y'']) (contentSelector (hd [text_pair (str ''li'')])))
        = [Some (str ''x''), Some (str ''y'')]"
    by code_simp
  with single_pair_is_global [OF 1 2 3] 1 2 3 show ?thesis
    by (simp only: simp_thms)
qed

subsection \<open>The applicability test\<close>

text \<open>
  Claim C9. For an absent resource \<^verbatim>\<open>test\<close> returns false, whatever the project and the
  options are, also when no selector pair is configured; nothing is raised.
\<close>

theorem test_absent_resource: "test p project None = False"
  by (simp add: test_def)

subsection \<open>Row alignment\<close>

text \<open>
  The columns handed to \<^verbatim>\<open>transformToContentRows\<close> by \<^verbatim>\<open>extractContent\<close> are arrays
  freshly built by \<^verbatim>\<open>map\<close> and \<^verbatim>\<open>filter\<close>, no two of them the same object, so the
  in-place \<^verbatim>\<open>splice\<close> of one column is the functional padding of \<open>pad_column\<close>.
\<close>

lemma Math_max_Some: "xs \<noteq> [] \<Longrightarrow> Math_max xs = Some (Max (set xs))"
  by (cases xs) (simp_all add: Max.set_eq_fold [symmetric])

lemma length_pad_column:
  "length col \<le> m \<Longrightarrow> length (pad_column m col) = m"
  by (simp add: pad_column_def Let_def)

lemma nth_pad_column:
  "r < m \<Longrightarrow> length col \<le> m \<Longrightarrow>
     pad_column m col ! r =
       (if r < length col then col ! r else if col = [] then Some [] else last col)"
  by (auto simp: pad_column_def Let_def nth_append)

lemma transformToContentRows_eq:
  assumes "contentBySelector \<noteq> []"
  shows "transformToContentRows contentBySelector =
           Inr (map (\<lambda>idx. map (\<lambda>col. pad_column (Max (set (map length contentBySelector))) col ! idx)
                               contentBySelector)
                    [0..<Max (set (map length contentBySelector))])"
proof -
  let ?m = "Max (set (map length contentBySelector))"
  have le: "length col \<le> ?m" if "col \<in> set contentBySelector" for col
    using that by (intro Max_ge) auto
  have "js_nth (pad_column ?m col) idx = pad_column ?m col ! idx"
    if "col \<in> set contentBySelector" "idx < ?m" for col idx
    using that le by (simp add: js_nth_def length_pad_column)
  then show ?thesis
    using assms by (simp add: transformToContentRows_def Math_max_Some Let_def comp_def cong: map_cong)
qed

text \<open>
  Claim C2. For one column at least, \<^verbatim>\<open>transformToContentRows\<close> returns as many rows as
  the longest column has values, every row has one cell per column, and the cell of row
  \<open>r\<close> in column \<open>i\<close> is the \<open>r\<close>-th value of that column or, past its end, the
  column's last value, the empty string for a column without values.
\<close>

theorem transformToContentRows_aligned:
  assumes "contentBySelector \<noteq> []"
  shows "\<exists>rows. transformToContentRows contentBySelector = Inr rows
           \<and> length rows = Max (set (map length contentBySelector))
           \<and> (\<forall>row \<in> set rows. length row = length contentBySelector)
           \<and> (\<forall>i r. i < length contentBySelector \<and> r < length rows \<longrightarrow>
                 rows ! r ! i =
                   (if r < length (contentBySelector ! i) then contentBySelector ! i ! r
                    else if contentBySelector ! i = [] then Some []
                    else last (contentBySelector ! i)))"
proof -
  let ?m = "Max (set (map length contentBySelector))"
  let ?rows = "map (\<lambda>idx. map (\<lambda>col. pad_column ?m col ! idx) contentBySelector) [0..<?m]"
  have le: "length (contentBySelector ! i) \<le> ?m" if "i < length contentBySelector" for i
    using that by (intro Max_ge) auto
  have cell: "?rows ! r ! i =
      (if r < length (contentBySelector ! i) then contentBySelector ! i ! r
       else if contentBySelector ! i = [] then Some [] else last (contentBySelector ! i))"
    if "i < length contentBySelector" "r < length ?rows" for i r
    using that le [of i] by (simp add: nth_pad_column)
  have "transformToContentRows contentBySelector = Inr ?rows"
    using assms by (rule transformToContentRows_eq)
  moreover have "length ?rows = ?m" by simp
  moreover have "\<forall>row \<in> set ?rows. length row = length contentBySelector" by auto
  ultimately show ?thesis using cell by blast
qed

theorem transformToContentRows_aligned_witness:
  "[[Some (str ''a''), Some (str ''b''), Some (str ''c'')], [Some (str ''x'')], []] \<noteq> ([] :: jsval list list)
   \<and> transformToContentRows [[Some (str ''a''), Some (str ''b''), Some (str ''c'')], [Some (str ''x'')], []]
       = Inr [[Some (str ''a''), Some (str ''x''), Some []], [Some (str ''b''), Some (str ''x''), Some []],
              [Some (str ''c''), Some (str ''x''), Some []]]
   \<and> (\<exists>rows. transformToContentRows [[Some (str ''a''), Some (str ''b''), Some (str ''c'')], [Some (str ''x'')], []]
                = Inr rows
          \<and> length rows = 3 \<and> length (rows ! 2) = 3
          \<and> rows ! 2 ! 0 = Some (str ''c'') \<and> rows ! 2 ! 1 = Some (str ''x'') \<and> rows ! 2 ! 2 = Some [])"
proof -
  let ?cbs = "[[Some (str ''a''), Some (str ''b''), Some (str ''c'')], [Some (str ''x'')], []] :: jsval list list"
  have ne: "?cbs \<noteq> []" by simp
  have ev: "transformToContentRows ?cbs
       = Inr [[Some (str ''a''), Some (str ''x''), Some []], [Some (str ''b''), Some (str ''x''), Some []],
              [Some (str ''c''), Some (str ''x''), Some []]]"
    by code_simp
  from transformToContentRows_aligned [OF ne] obtain rows where
    rows: "transformToContentRows ?cbs = Inr rows"
    and len: "length rows = Max (set (map length ?cbs))"
    and cols: "\<forall>row \<in> set rows. length row = length ?cbs"
    and cell: "\<forall>i r. i < length ?cbs \<and> r < length rows \<longrightarrow>
                 rows ! r ! i =
                   (if r < length (?cbs ! i) then ?cbs ! i ! r
                    else if ?cbs ! i = [] then Some [] else last (?cbs ! i))"
    by blast
  from len have len3: "length rows = 3" by simp
  then have "rows ! 2 \<in> set rows" by simp
  with cols have "length (rows ! 2) = 3" by simp
  moreover from cell [rule_format, of 0 2] len3 have "rows ! 2 ! 0 = Some (str ''c'')"
    by simp
  moreover from cell [rule_format, of 1 2] len3 have "rows ! 2 ! 1 = Some (str ''x'')"
    by simp
  moreover from cell [rule_format, of 2 2] len3 have "rows ! 2 ! 2 = Some []"
    by simp
  ultimately show ?thesis using ne ev rows len3 by blast
qed

subsection \<open>Scoped mode\<close>

lemma reduce_append:
  "reduce f acc (xs @ ys) =
     (case reduce f acc xs of Inl e \<Rightarrow> Inl e | Inr acc' \<Rightarrow> reduce f acc' ys)"
  by (induction xs arbitrary: acc) (auto split: sum.splits)

lemma scoped_contentBySelector_empty:
  assumes "list_all (\<lambda>(suffixSelector, sp).
              list_all (\<lambda>elm. \<not> truthy (read_value (contentProperty sp) elm))
                (querySelectorAll baseElm suffixSelector))
            (zip suffixSelectors pairs)"
  shows "list_all (\<lambda>col. col = []) (scoped_contentBySelector pairs suffixSelectors baseElm)"
  using assms
  by (auto simp: scoped_contentBySelector_def list_all_iff filter_empty_conv)

lemma scoped_reducer_empty:
  "list_all (\<lambda>col. col = []) (scoped_contentBySelector pairs suffixSelectors baseElm) \<Longrightarrow>
     scoped_reducer pairs suffixSelectors rows baseElm = Inr rows"
proof -
  assume "list_all (\<lambda>col. col = []) (scoped_contentBySelector pairs suffixSelectors baseElm)"
  then have "find (\<lambda>colEntry. length colEntry > 0)
               (scoped_contentBySelector pairs suffixSelectors baseElm) = None"
    by (simp add: find_None_iff list_all_iff)
  then show ?thesis
    by (simp add: scoped_reducer_def Let_def)
qed

lemma blank_item_falsy:
  "list_all (\<lambda>(suffixSelector, sp).
       list_all (\<lambda>elm. \<not> truthy (read_value (contentProperty sp) elm))
         (querySelectorAll (item_node [[0xA0], str ''  ''] []) suffixSelector))
     (zip [str ''.title'', str ''.price''] item_pairs)"
  by code_simp

text \<open>
  Claim C8. In scoped mode a base element under which no selector reads a non-empty value
  (every value read is absent, empty, or white space only, as a no-break space U+00A0 is)
  adds no row: the callback of \<^verbatim>\<open>reduce\<close> returns the rows it was given, and the pass
  over the base elements gives what it gives without that element.
\<close>

theorem empty_base_element_no_rows:
  assumes "list_all (\<lambda>(suffixSelector, sp).
              list_all (\<lambda>elm. \<not> truthy (read_value (contentProperty sp) elm))
                (querySelectorAll baseElm suffixSelector))
            (zip suffixSelectors pairs)"
  shows "scoped_reducer pairs suffixSelectors rows baseElm = Inr rows
       \<and> reduce (scoped_reducer pairs suffixSelectors) rows (before @ baseElm # after)
           = reduce (scoped_reducer pairs suffixSelectors) rows (before @ after)"
proof -
  have step: "scoped_reducer pairs suffixSelectors acc baseElm = Inr acc" for acc
    using assms by (intro scoped_reducer_empty scoped_contentBySelector_empty)
  show ?thesis
    by (simp add: step reduce_append split: sum.splits)
qed

theorem empty_base_element_no_rows_witness:
  "list_all (\<lambda>(suffixSelector, sp).
       list_all (\<lambda>elm. \<not> truthy (read_value (contentProperty sp) elm))
         (querySelectorAll (item_node [[0xA0], str ''  ''] []) suffixSelector))
     (zip [str ''.title'', str ''.price''] item_pairs)
   \<and> scoped_reducer item_pairs [str ''.title'', str ''.price''] [[Some (str ''T1''), Some (str ''P1'')]]
         (item_node [[0xA0], str ''  ''] [])
       = Inr [[Some (str ''T1''), Some (str ''P1'')]]
   \<and> reduce (scoped_reducer item_pairs [str ''.title'', str ''.price'']) []
         ([item_node [str ''T1''] [str ''P1'']] @ item_node [[0xA0], str ''  ''] [] # [item_node [str ''T2''] []])
       = Inr [[Some (str ''T1''), Some (str ''P1'')], [Some (str ''T2''), Some []]]"
proof -
  have without: "reduce (scoped_reducer item_pairs [str ''.title'', str ''.price'']) []
         ([item_node [str ''T1''] [str ''P1'']] @ [item_node [str ''T2''] []])
       = Inr [[Some (str ''T1''), Some (str ''P1'')], [Some (str ''T2''), Some []]]"
    by code_simp
  from empty_base_element_no_rows [OF blank_item_falsy, of "[[Some (str ''T1''), Some (str ''P1'')]]"]
  have one: "scoped_reducer item_pairs [str ''.title'', str ''.price''] [[Some (str ''T1''), Some (str ''P1'')]]
         (item_node [[0xA0], str ''  ''] [])
       = Inr [[Some (str ''T1''), Some (str ''P1'')]]"
    by (rule conjunct1)
  from empty_base_element_no_rows
         [OF blank_item_falsy, of "[]" "[item_node [str ''T1''] [str ''P1'']]" "[item_node [str ''T2''] []]"]
  have "reduce (scoped_reducer item_pairs [str ''.title'', str ''.price'']) []
         ([item_node [str ''T1''] [str ''P1'']] @ item_node [[0xA0], str ''  ''] [] # [item_node [str ''T2''] []])
       = reduce (scoped_reducer item_pairs [str ''.title'', str ''.price'']) []
         ([item_node [str ''T1''] [str ''P1'']] @ [item_node [str ''T2''] []])"
    by (rule conjunct2)
  with without have "reduce (scoped_reducer item_pairs [str ''.title'', str ''.price'']) []
         ([item_node [str ''T1''] [str ''P1'']] @ item_node [[0xA0], str ''  ''] [] # [item_node [str ''T2''] []])
       = Inr [[Some (str ''T1''), Some (str ''P1'')], [Some (str ''T2''), Some []]]"
    by (simp only: )
  with blank_item_falsy one show ?thesis by (intro conjI)
qed

text \<open>
  Every row of a scoped pass has a non-empty cell: the values are filtered before the
  alignment, and a row is cut through the longest column among them.
\<close>

lemma scoped_contentBySelector_truthy:
  "col \<in> set (scoped_contentBySelector pairs suffixSelectors baseElm) \<Longrightarrow> v \<in> set col
     \<Longrightarrow> truthy v"
  by (auto simp: scoped_contentBySelector_def)

lemma transformToContentRows_truthy:
  assumes rows: "transformToContentRows contentBySelector = Inr rows"
    and truthy: "\<And>col v. col \<in> set contentBySelector \<Longrightarrow> v \<in> set col \<Longrightarrow> truthy v"
    and row: "row \<in> set rows"
  shows "\<exists>v \<in> set row. truthy v"
proof -
  let ?m = "Max (set (map length contentBySelector))"
  from rows have ne: "contentBySelector \<noteq> []"
    by (auto simp: transformToContentRows_def)
  then have "?m \<in> set (map length contentBySelector)"
    by (intro Max_in) auto
  then obtain longest where longest: "longest \<in> set contentBySelector" "length longest = ?m"
    by auto
  from rows row transformToContentRows_eq [OF ne] obtain idx where
    idx: "idx < ?m" and row_eq: "row = map (\<lambda>col. pad_column ?m col ! idx) contentBySelector"
    by auto
  have "pad_column ?m longest ! idx = longest ! idx"
    using longest(2) by (simp add: pad_column_def)
  moreover have "longest ! idx \<in> set longest"
    using idx longest(2) by simp
  ultimately have "truthy (pad_column ?m longest ! idx)"
    using truthy [OF longest(1)] by simp
  moreover have "pad_column ?m longest ! idx \<in> set row"
    unfolding row_eq using longest(1) by auto
  ultimately show ?thesis by blast
qed

lemma scoped_reducer_truthy:
  assumes "scoped_reducer pairs suffixSelectors rows baseElm = Inr rows'"
    and "\<forall>row \<in> set rows. \<exists>v \<in> set row. truthy v"
  shows "\<forall>row \<in> set rows'. \<exists>v \<in> set row. truthy v"
proof (cases "find (\<lambda>colEntry. length colEntry > 0)
                (scoped_contentBySelector pairs suffixSelectors baseElm)")
  case None
  with assms show ?thesis by (simp add: scoped_reducer_def Let_def)
next
  case (Some validRowResult)
  with assms(1) obtain newRows where
    new: "transformToContentRows (scoped_contentBySelector pairs suffixSelectors baseElm)
            = Inr newRows"
    and rows': "rows' = rows @ newRows"
    by (auto simp: scoped_reducer_def Let_def split: sum.splits)
  have "\<exists>v \<in> set row. truthy v" if "row \<in> set newRows" for row
    using new scoped_contentBySelector_truthy that by (rule transformToContentRows_truthy)
  with assms(2) rows' show ?thesis by auto
qed

lemma reduce_scoped_truthy:
  "reduce (scoped_reducer pairs suffixSelectors) rows elms = Inr rows' \<Longrightarrow>
     \<forall>row \<in> set rows. \<exists>v \<in> set row. truthy v \<Longrightarrow>
     \<forall>row \<in> set rows'. \<exists>v \<in> set row. truthy v"
proof (induction elms arbitrary: rows)
  case Nil
  then show ?case by simp
next
  case (Cons elm elms)
  from Cons.prems(1) obtain mid where
    mid: "scoped_reducer pairs suffixSelectors rows elm = Inr mid"
    and rest: "reduce (scoped_reducer pairs suffixSelectors) mid elms = Inr rows'"
    by (auto split: sum.splits)
  from mid Cons.prems(2) have "\<forall>row \<in> set mid. \<exists>v \<in> set row. truthy v"
    by (rule scoped_reducer_truthy)
  with rest show ?case by (rule Cons.IH)
qed

lemma extractContent_scoped_truthy:
  "extractContent_scoped doc pairs selectorBase = Inr rows \<Longrightarrow>
     \<forall>row \<in> set rows. \<exists>v \<in> set row. truthy v"
  unfolding extractContent_scoped_def Let_def
  by (erule reduce_scoped_truthy) simp

subsection \<open>Global mode\<close>

text \<open>
  Claim C4 does not hold of the global branch of \<^verbatim>\<open>extractContent\<close>: it trims the values
  read, but has no \<^verbatim>\<open>filter\<close>. For three \<^verbatim>\<open>li\<close> elements with the texts \<^verbatim>\<open>a\<close>, two
  blanks and the empty string, the column of the global branch keeps two empty values;
  the scoped branch, on the same elements, drops them. A value the DOM client does not
  have stays in the column as \<^verbatim>\<open>null\<close>.
\<close>

theorem global_mode_keeps_empty_values:
  "global_contentBySelector (list_doc [str ''a'', str ''  '', str '''']) [text_pair (str ''li'')]
     = [[Some (str ''a''), Some [], Some []]]
   \<and> scoped_contentBySelector [text_pair (str ''li'')] [str ''li''] (list_doc [str ''a'', str ''  '', str ''''])
     = [[Some (str ''a'')]]
   \<and> global_contentBySelector (item_doc [text_node None]) [text_pair (str ''.item'')] = [[None]]"
  by code_simp

text \<open>
  Claim C5 does not hold in global mode either: for a single selector matching one element
  with an empty text, the pass of a fresh plugin returns one row, and its only cell is the
  empty string.
\<close>

theorem global_mode_emits_empty_row:
  "extractContent (li_plugin\<lparr>document := Some (list_doc [str ''''])\<rparr>) = Inr [[Some []]]
   \<and> map_sum id fst (apply_plugin li_plugin (list_doc [str ''''])) = Inr [[Some []]]
   \<and> \<not> list_ex truthy [Some []]"
  by code_simp

end
